theory Spec2Isabelle
  imports Complex_Main
begin

section \<open>Delivery manager: strings, parsers, validators and flat files\<close>

text \<open>
  The development embeds the pure functions and the flat-file managers of the delivery
  manager. Python strings are modelled as \<open>string\<close>; the character classes below are those
  of ASCII text (\<open>str.isspace\<close>, \<open>str.isdigit\<close>, \<open>str.upper\<close> and the regular-expression
  classes agree with them on ASCII). A Python float is a value of \<open>pyfloat\<close>:
  a finite double, written as the rational number it denotes, an infinity or NaN (the
  catalog prices and \<open>parse_numeric\<close> keep to finite values). The interpreter's limit on
  the number of digits that \<open>int\<close> converts is outside the model. Library functions whose text algorithms
  live outside the repository (\<open>float\<close> on strings, \<open>json\<close>, \<open>csv\<close>) are parameters of the
  functions that call them. An exception that leaves a function is a value \<open>Inl e\<close> of its
  result; a function whose result type has no error catches every exception in the source.
\<close>

subsection \<open>Python string primitives\<close>

definition isspace :: "char \<Rightarrow> bool" where
  \<comment> \<open>\<open>str.isspace\<close> on one ASCII character: TAB, LF, VT, FF, CR, FS, GS, RS, US, space.\<close>
  "isspace c \<longleftrightarrow> c \<in> set [CHR 0x09, CHR 0x0A, CHR 0x0B, CHR 0x0C, CHR 0x0D,
                          CHR 0x1C, CHR 0x1D, CHR 0x1E, CHR 0x1F, CHR '' '']"

definition is_digit :: "char \<Rightarrow> bool" where
  "is_digit c \<longleftrightarrow> c \<in> set ''0123456789''"

definition is_alnum :: "char \<Rightarrow> bool" where
  \<comment> \<open>the regular-expression class \<open>[A-Za-z0-9]\<close>\<close>
  "is_alnum c \<longleftrightarrow>
     c \<in> set ''ABCDEFGHIJKLMNOPQRSTUVWXYZabcdefghijklmnopqrstuvwxyz0123456789''"

definition upper_char :: "char \<Rightarrow> char" where
  "upper_char c =
     (case map_of (zip ''abcdefghijklmnopqrstuvwxyz'' ''ABCDEFGHIJKLMNOPQRSTUVWXYZ'') c of
        None \<Rightarrow> c | Some u \<Rightarrow> u)"

definition lower_char :: "char \<Rightarrow> char" where
  "lower_char c =
     (case map_of (zip ''ABCDEFGHIJKLMNOPQRSTUVWXYZ'' ''abcdefghijklmnopqrstuvwxyz'') c of
        None \<Rightarrow> c | Some l \<Rightarrow> l)"

definition upper :: "string \<Rightarrow> string" where
  \<comment> \<open>\<open>str.upper\<close>\<close>
  "upper s = map upper_char s"

definition lstrip :: "string \<Rightarrow> string" where
  "lstrip s = dropWhile isspace s"

definition rstrip :: "string \<Rightarrow> string" where
  "rstrip s = rev (dropWhile isspace (rev s))"

definition strip :: "string \<Rightarrow> string" where
  \<comment> \<open>\<open>str.strip()\<close> with no argument\<close>
  "strip s = rstrip (lstrip s)"

fun split_on :: "(char \<Rightarrow> bool) \<Rightarrow> string \<Rightarrow> string list" where
  \<comment> \<open>\<open>s.split(sep)\<close> for a one-character separator and \<open>re.split\<close> on a character class:
      a cut at every separator, empty pieces kept, at least one piece returned\<close>
  "split_on P [] = [[]]"
| "split_on P (c # cs) =
     (if P c then [] # split_on P cs
      else (case split_on P cs of w # ws \<Rightarrow> (c # w) # ws | [] \<Rightarrow> [[c]]))"

definition split_ws :: "string \<Rightarrow> string list" where
  \<comment> \<open>\<open>s.split()\<close> with no argument: pieces between runs of whitespace, no empty piece\<close>
  "split_ws s = filter (\<lambda>w. w \<noteq> []) (split_on isspace s)"

definition remove_char :: "char \<Rightarrow> string \<Rightarrow> string" where
  \<comment> \<open>\<open>s.replace(c, "")\<close> for a one-character \<open>c\<close>\<close>
  "remove_char c s = filter (\<lambda>x. x \<noteq> c) s"

fun remove_pair :: "char \<Rightarrow> char \<Rightarrow> string \<Rightarrow> string" where
  \<comment> \<open>\<open>s.replace(ab, "")\<close> for a two-character \<open>ab\<close>: occurrences are found from the left
      and do not overlap\<close>
  "remove_pair a b (x # y # zs) =
     (if x = a \<and> y = b then remove_pair a b zs else x # remove_pair a b (y # zs))"
| "remove_pair a b zs = zs"

definition isdigit :: "string \<Rightarrow> bool" where
  \<comment> \<open>\<open>str.isdigit\<close>: false on the empty string\<close>
  "isdigit s \<longleftrightarrow> s \<noteq> [] \<and> list_all is_digit s"

definition digit_val :: "char \<Rightarrow> nat" where
  "digit_val c = of_char c - 48"

definition digits_value :: "string \<Rightarrow> nat" where
  "digits_value s = foldl (\<lambda>n c. 10 * n + digit_val c) 0 s"

definition py_int :: "string \<Rightarrow> int option" where
  \<comment> \<open>\<open>int(s)\<close> in base 10: surrounding whitespace is dropped, one sign is allowed, the
      digits may be grouped by single underscores; \<open>None\<close> stands for \<open>ValueError\<close>\<close>
  "py_int s =
     (let t = strip s;
          (neg, body) = (case t of
             c # r \<Rightarrow> if c = CHR ''-'' then (True, r) else if c = CHR ''+'' then (False, r)
                      else (False, t)
           | [] \<Rightarrow> (False, t))
      in if list_all isdigit (split_on (\<lambda>c. c = CHR ''_'') body)
         then Some ((if neg then - 1 else 1) * int (digits_value (remove_char (CHR ''_'') body)))
         else None)"

datatype py_error = ValueError | IOError | OverflowError | RecursionError | CsvError

subsection \<open>Python floats\<close>

datatype pyfloat =
    Finite rat    \<comment> \<open>a finite double, as the rational number it denotes\<close>
  | PosInf        \<comment> \<open>\<open>inf\<close>\<close>
  | NegInf        \<comment> \<open>\<open>-inf\<close>\<close>
  | NaN           \<comment> \<open>\<open>nan\<close>\<close>

fun float_lt_zero :: "pyfloat \<Rightarrow> bool" where
  \<comment> \<open>the comparison \<open>x < 0\<close>: false for NaN\<close>
  "float_lt_zero (Finite r) = (r < 0)"
| "float_lt_zero PosInf = False"
| "float_lt_zero NegInf = True"
| "float_lt_zero NaN = False"

fun float_ge_zero :: "pyfloat \<Rightarrow> bool" where
  \<comment> \<open>the comparison \<open>x >= 0\<close>, the specification's "non-negative": false for NaN\<close>
  "float_ge_zero (Finite r) = (0 \<le> r)"
| "float_ge_zero PosInf = True"
| "float_ge_zero NegInf = False"
| "float_ge_zero NaN = False"

function excess_bits :: "nat \<Rightarrow> nat" where
  \<comment> \<open>how many low bits a natural number has beyond the 53 bits of a double's significand\<close>
  "excess_bits n = (if n < 2 ^ 53 then 0 else Suc (excess_bits (n div 2)))"
  by pat_completeness auto
termination
  by (relation "measure id") auto

declare excess_bits.simps [simp del]

definition round_to_double :: "nat \<Rightarrow> nat" where
  \<comment> \<open>the nearest natural number with at most 53 significant bits, a tie to the even
      significand\<close>
  "round_to_double n =
     (let e = excess_bits n; q = n div 2 ^ e; r = n mod 2 ^ e;
          q' = (if 2 * r < 2 ^ e then q else if 2 ^ e < 2 * r then q + 1
                else if even q then q else q + 1)
      in q' * 2 ^ e)"

definition int_to_float :: "int \<Rightarrow> pyfloat option" where
  \<comment> \<open>\<open>float(i)\<close> for an \<open>int\<close>: the nearest double; \<open>None\<close> stands for the \<open>OverflowError\<close>
      of an integer too large for a double\<close>
  "int_to_float i =
     (let m = round_to_double (nat \<bar>i\<bar>)
      in if 2 ^ 1024 \<le> m then None
         else Some (Finite (if i < 0 then - of_nat m else of_nat m)))"

subsection \<open>Validators\<close>

datatype phone_message =
    EmptyPhoneField            \<comment> \<open>"Empty phone field"\<close>
  | InvalidCharacters string   \<comment> \<open>"Phone '<part>' contains invalid characters"\<close>
  | BadLength string           \<comment> \<open>"Phone '<part>' length must be 8-15 digits"\<close>
  | PhoneOK                    \<comment> \<open>"OK"\<close>

definition clean_phone :: "string \<Rightarrow> string" where
  "clean_phone part =
     remove_char (CHR '')'') (remove_char (CHR ''('') (remove_char (CHR ''-'')
       (remove_char (CHR '' '') part)))"

definition phone_digits :: "string \<Rightarrow> string" where
  \<comment> \<open>the loop body's \<open>digits\<close>: the cleaned part without one leading plus sign\<close>
  "phone_digits part =
     (let cleaned = clean_phone part
      in if cleaned \<noteq> [] \<and> hd cleaned = CHR ''+'' then tl cleaned else cleaned)"

fun check_phone_parts :: "string list \<Rightarrow> bool \<times> phone_message" where
  \<comment> \<open>the \<open>for part in parts\<close> loop with its two early returns\<close>
  "check_phone_parts [] = (True, PhoneOK)"
| "check_phone_parts (part # parts) =
     (let digits = phone_digits part
      in if \<not> isdigit digits then (False, InvalidCharacters part)
         else if length digits < 8 \<or> length digits > 15 then (False, BadLength part)
         else check_phone_parts parts)"

definition phone_parts :: "string \<Rightarrow> string list" where
  "phone_parts phone =
     map strip (filter (\<lambda>p. strip p \<noteq> []) (split_on (\<lambda>c. c = CHR ''/'') phone))"

definition validate_phone :: "string \<Rightarrow> bool \<times> phone_message" where
  "validate_phone phone =
     (if phone = [] then (False, EmptyPhoneField)
      else let parts = phone_parts phone
           in if parts = [] then (False, EmptyPhoneField)
              else check_phone_parts parts)"

definition phone_part_ok :: "string \<Rightarrow> bool" where
  \<comment> \<open>the rule as the specification words it, for one trimmed part: once spaces, dashes and
      parentheses and one leading plus sign are gone, only digits remain, 8 to 15 of them\<close>
  "phone_part_ok part \<longleftrightarrow>
     (let kept = filter (\<lambda>c. c \<notin> set '' -()'') part;
          ds = (case kept of c # r \<Rightarrow> if c = CHR ''+'' then r else kept | [] \<Rightarrow> kept)
      in (\<forall>c \<in> set ds. is_digit c) \<and> 8 \<le> length ds \<and> length ds \<le> 15)"

subsection \<open>Product-field parser\<close>

record product_entry =
  code :: string
  qty :: int

definition signed_digits :: "string \<Rightarrow> string option" where
  \<comment> \<open>the group \<open>(-?\d+)\<close> tried at the head of \<open>s\<close>: an optional minus sign and the longest
      run of digits, which must not be empty\<close>
  "signed_digits s =
     (case s of
        c # r \<Rightarrow>
          if c = CHR ''-''
          then (if takeWhile is_digit r = [] then None else Some (c # takeWhile is_digit r))
          else (if takeWhile is_digit s = [] then None else Some (takeWhile is_digit s))
      | [] \<Rightarrow> None)"

definition PRODUCT_PATTERN :: "string \<Rightarrow> (string \<times> string option) option" where
  \<comment> \<open>\<open>PRODUCT_PATTERN.match(item)\<close> for the pattern
      \<open>([A-Za-z0-9]+)\s*(?:[:xX]?\s*(-?\d+))?\<close>, anchored at the start only: \<open>None\<close> when
      the item does not start with an alphanumeric character, else groups 1 and 2. Group 1
      is the longest alphanumeric prefix; the whitespace after it is skipped, then one
      separator character and more whitespace when present, and group 2 is read there.
      When group 2 cannot be read the optional part matches nothing.\<close>
  "PRODUCT_PATTERN item =
     (let group1 = takeWhile is_alnum item;
          rest = dropWhile isspace (dropWhile is_alnum item);
          after_sep = (case rest of
                         c # r \<Rightarrow> if c \<in> set '':xX'' then dropWhile isspace r else rest
                       | [] \<Rightarrow> rest)
      in if group1 = [] then None else Some (group1, signed_digits after_sep))"

definition parse_item :: "string \<Rightarrow> py_error + product_entry" where
  \<comment> \<open>the loop body for one stripped, non-empty item\<close>
  "parse_item item =
     (case PRODUCT_PATTERN item of
        None \<Rightarrow>
          (let tokens = split_ws item
           in if length tokens = 2 \<and> isdigit (dropWhile (\<lambda>c. c = CHR ''-'') (tokens ! 1))
              then (case py_int (tokens ! 1) of
                      None \<Rightarrow> Inl ValueError
                    | Some q \<Rightarrow> Inr \<lparr>code = upper (tokens ! 0), qty = q\<rparr>)
              else Inr \<lparr>code = upper item, qty = 1\<rparr>)
      | Some (group1, qty_raw) \<Rightarrow>
          (case qty_raw of
             None \<Rightarrow> Inr \<lparr>code = upper group1, qty = 1\<rparr>
           | Some raw \<Rightarrow>
               if raw = [] then Inr \<lparr>code = upper group1, qty = 1\<rparr>
               else (case py_int raw of
                       None \<Rightarrow> Inl ValueError
                     | Some q \<Rightarrow> Inr \<lparr>code = upper group1, qty = q\<rparr>)))"

fun parse_items :: "string list \<Rightarrow> product_entry list \<Rightarrow> py_error + product_entry list" where
  \<comment> \<open>the \<open>for item in items\<close> loop; the second argument is the list \<open>parsed\<close> built so far\<close>
  "parse_items [] parsed = Inr parsed"
| "parse_items (item # items) parsed =
     (if strip item = [] then parse_items items parsed
      else (case parse_item (strip item) of
              Inl e \<Rightarrow> Inl e
            | Inr entry \<Rightarrow> parse_items items (parsed @ [entry])))"

definition parse_product_field :: "string \<Rightarrow> py_error + product_entry list" where
  "parse_product_field field_text =
     (if field_text = [] \<or> strip field_text = [] then Inr []
      else parse_items (split_on (\<lambda>c. c \<in> set '';,'') field_text) [])"

subsection \<open>Currency and number formatting\<close>

datatype number = IntVal int | FloatVal rat

definition parse_numeric :: "(string \<Rightarrow> rat option) \<Rightarrow> string option \<Rightarrow> bool \<Rightarrow> number option" where
  \<comment> \<open>The first argument is the library's \<open>float\<close> on strings (\<open>None\<close> for \<open>ValueError\<close>);
      the second is \<open>value_str\<close>, the third \<open>allow_negative\<close>.\<close>
  "parse_numeric py_float value_str allow_negative =
     (case value_str of
        None \<Rightarrow> None
      | Some s \<Rightarrow>
          (let cleaned = strip s;
               cleaned = remove_char (CHR '','') (remove_pair (CHR ''a'') (CHR ''r'')
                           (remove_pair (CHR ''A'') (CHR ''r'') (remove_char (CHR '' '') cleaned)))
           in if cleaned = [] then None
              else if CHR ''.'' \<in> set cleaned
              then (case py_float cleaned of
                      None \<Rightarrow> None
                    | Some v \<Rightarrow> if \<not> allow_negative \<and> v < 0 then None else Some (FloatVal v))
              else (case py_int cleaned of
                      None \<Rightarrow> None
                    | Some v \<Rightarrow> if \<not> allow_negative \<and> v < 0 then None else Some (IntVal v))))"















subsection \<open>Flat files\<close>

datatype text_file =
    Missing             \<comment> \<open>\<open>os.path.exists\<close> is false and \<open>open\<close> for reading raises\<close>
  | Unreadable          \<comment> \<open>the path exists, reading it raises (permissions, decoding)\<close>
  | Readable string     \<comment> \<open>the text a read returns\<close>

definition LF :: char where "LF = CHR 0x0A"
definition CR :: char where "CR = CHR 0x0D"

fun universal_newlines :: "string \<Rightarrow> string" where
  \<comment> \<open>text-mode reading with the default \<open>newline=None\<close>: CR LF and a lone CR become LF\<close>
  "universal_newlines [] = []"
| "universal_newlines [c] = (if c = CR then [LF] else [c])"
| "universal_newlines (c # d # ds) =
     (if c = CR \<and> d = LF then LF # universal_newlines ds
      else if c = CR then LF # universal_newlines (d # ds)
      else c # universal_newlines (d # ds))"

definition stripped_lines :: "string \<Rightarrow> string list" where
  \<comment> \<open>\<open>[line.strip() for line in f if line.strip()]\<close>: the iteration cuts the text after
      every LF; the piece after a final LF, which the iteration does not yield, is empty and
      is dropped with the other blank lines\<close>
  "stripped_lines content =
     map strip (filter (\<lambda>line. strip line \<noteq> [])
       (split_on (\<lambda>c. c = LF) (universal_newlines content)))"

definition write_lines :: "string list \<Rightarrow> string" where
  \<comment> \<open>\<open>for x in xs: f.write(f"{x}\n")\<close>\<close>
  "write_lines xs = concat (map (\<lambda>x. x @ [LF]) xs)"

subsection \<open>Configuration\<close>

definition MAX_ADDRESS_HISTORY :: nat where
  "MAX_ADDRESS_HISTORY = 200"

definition DEFAULT_AGENTS :: "string list" where
  "DEFAULT_AGENTS = [''Jean'', ''Hery'', ''Mamy'', ''Rado'', ''External Courier'']"

definition SAMPLE_PRODUCTS_CSV :: string where
  \<comment> \<open>what \<open>save_products_example\<close> writes: the header row and \<open>Config.SAMPLE_PRODUCTS\<close>,
      rows ended by CR LF as \<open>csv.writer\<close> ends them\<close>
  "SAMPLE_PRODUCTS_CSV =
     ''Code,Name,Price,Unit'' @ [CR, LF] @ ''CA,Creme Affinante,25000,unit'' @ [CR, LF] @
     ''TA,Tisane Affinante,25000,unit'' @ [CR, LF] @ ''CG,Creme Galbante,25000,unit'' @ [CR, LF] @
     ''SG,SAVON GALBANT,15000,unit'' @ [CR, LF] @ ''BS,Base de Savon,50,g'' @ [CR, LF] @
     ''G,Gaine,10000,unit'' @ [CR, LF]"

subsection \<open>Address history\<close>

definition load_addresses :: "text_file \<Rightarrow> string list" where
  "load_addresses f =
     (case f of
        Missing \<Rightarrow> []
      | Unreadable \<Rightarrow> []
      | Readable content \<Rightarrow> stripped_lines content)"

datatype write_outcome =
    Written               \<comment> \<open>\<open>open(path, 'w')\<close> and every write succeed\<close>
  | OpenFailed            \<comment> \<open>\<open>open(path, 'w')\<close> raises: the file is not touched\<close>
  | Interrupted string    \<comment> \<open>\<open>open\<close> has emptied the file and a write raises: the file holds
                              what got through, some part of the text\<close>

definition write_text :: "write_outcome \<Rightarrow> string \<Rightarrow> text_file \<Rightarrow> text_file" where
  \<comment> \<open>the file after an attempt to replace its text\<close>
  "write_text outcome new_text f =
     (case outcome of
        Written \<Rightarrow> Readable new_text
      | OpenFailed \<Rightarrow> f
      | Interrupted partial \<Rightarrow> Readable partial)"

definition save_address :: "write_outcome \<Rightarrow> string \<Rightarrow> text_file \<Rightarrow> text_file" where
  \<comment> \<open>The first argument is how the write goes; a failure is printed and dropped.\<close>
  "save_address outcome address f =
     (if address = [] \<or> strip address = [] then f
      else let address = strip address;
               addresses = load_addresses f;
               addresses = (if address \<in> set addresses then remove1 address addresses
                            else addresses);
               addresses = address # addresses;
               addresses = take MAX_ADDRESS_HISTORY addresses
           in write_text outcome (write_lines addresses) f)"

subsection \<open>Agents\<close>

definition get_default_agents :: "string list" where
  "get_default_agents = DEFAULT_AGENTS"

definition load_agents :: "text_file \<Rightarrow> string list" where
  "load_agents f =
     (case f of
        Missing \<Rightarrow> get_default_agents
      | Unreadable \<Rightarrow> get_default_agents
      | Readable content \<Rightarrow>
          (let agents = stripped_lines content
           in if agents \<noteq> [] then agents else get_default_agents))"

subsection \<open>Product catalog\<close>

definition save_products_example :: "bool \<Rightarrow> text_file \<Rightarrow> text_file" where
  "save_products_example writable f = (if writable then Readable SAMPLE_PRODUCTS_CSV else f)"

fun add_product_rows ::
  "(string \<Rightarrow> rat option) \<Rightarrow> string list list \<Rightarrow> (string \<rightharpoonup> rat) \<Rightarrow> (string \<rightharpoonup> rat)" where
  \<comment> \<open>the \<open>for row in data_rows\<close> loop: short rows and rows whose price is not a number are
      skipped, a later row replaces an earlier one with the same code\<close>
  "add_product_rows py_float [] products = products"
| "add_product_rows py_float (row # rows) products =
     (if length row < 3 then add_product_rows py_float rows products
      else (case py_float (strip (row ! 2)) of
              None \<Rightarrow> add_product_rows py_float rows products
            | Some price \<Rightarrow>
                add_product_rows py_float rows (products(upper (strip (row ! 0)) \<mapsto> price))))"

definition load_products ::
  "(string \<Rightarrow> rat option) \<Rightarrow> (string \<Rightarrow> py_error + string list list) \<Rightarrow> bool \<Rightarrow> text_file
     \<Rightarrow> text_file \<times> (string \<rightharpoonup> rat)" where
  \<comment> \<open>The parameters are the library's \<open>float\<close> on strings, \<open>list(csv.reader(f))\<close> on the
      text of the file (\<open>Inl\<close> when the reader raises) and whether a write succeeds. The
      result is the file as the call leaves it and the dictionary returned.\<close>
  "load_products py_float csv_reader writable f =
     (let f = (if f = Missing then save_products_example writable f else f)
      in (f, case f of
               Missing \<Rightarrow> Map.empty
             | Unreadable \<Rightarrow> Map.empty
             | Readable content \<Rightarrow>
                 (case csv_reader content of
                    Inl e \<Rightarrow> Map.empty
                  | Inr rows \<Rightarrow>
                      if rows = [] then Map.empty
                      else let first_row = hd rows;
                               has_header = (length first_row > 0 \<and>
                                 map lower_char (first_row ! 0) \<in> set [''code'', ''product'', ''sku'']);
                               data_rows = (if has_header then tl rows else rows)
                           in add_product_rows py_float data_rows Map.empty)))"

definition get_product_price :: "string \<Rightarrow> (string \<rightharpoonup> rat) \<Rightarrow> rat" where
  \<comment> \<open>\<open>products.get(code.upper(), 0.0)\<close>\<close>
  "get_product_price c products = (case products (upper c) of None \<Rightarrow> 0 | Some price \<Rightarrow> price)"

subsection \<open>Orders\<close>

record order_line =
  product_code :: string
  quantity :: int
  unit_price :: pyfloat
  line_total :: pyfloat

record order =
  client_name :: string
  phone :: string
  address :: string
  delivery_fee :: "pyfloat option"
  products :: string
  total_price :: pyfloat
  status :: string
  agent :: string
  order_notes :: string   \<comment> \<open>the field \<open>notes\<close>\<close>
  order_lines :: "order_line list"

definition is_valid :: "order \<Rightarrow> bool" where
  "is_valid self =
     (if client_name self = [] \<or> strip (client_name self) = [] then False
      else if phone self = [] \<or> strip (phone self) = [] then False
      else if address self = [] \<or> strip (address self) = [] then False
      else if (case delivery_fee self of None \<Rightarrow> True | Some fee \<Rightarrow> float_lt_zero fee) then False
      else True)"

datatype cell = Text string | Number pyfloat | NoValue

definition to_dict :: "order \<Rightarrow> (string \<rightharpoonup> cell)" where
  "to_dict self =
     [''Client Name'' \<mapsto> Text (client_name self),
      ''Phone'' \<mapsto> Text (phone self),
      ''Address'' \<mapsto> Text (address self),
      ''Delivery Fee'' \<mapsto> (case delivery_fee self of None \<Rightarrow> NoValue | Some fee \<Rightarrow> Number fee),
      ''Product(s)'' \<mapsto> Text (products self),
      ''Total Price'' \<mapsto> Number (total_price self),
      ''Status'' \<mapsto> Text (status self),
      ''Agent'' \<mapsto> Text (agent self),
      ''Notes'' \<mapsto> Text (order_notes self)]"

subsection \<open>Order CSV export and import\<close>

datatype json =
    JString string
  | JInt int
  | JFloat pyfloat
  | JArray "json list"
  | JObject "(string \<times> json) list"

definition fieldnames :: "string list" where
  "fieldnames = [''Client Name'', ''Phone'', ''Address'', ''Delivery Fee'', ''Product(s)'',
                 ''Total Price'', ''Status'', ''Agent'', ''Notes'', ''OrderLinesJSON'']"

definition order_line_data :: "order_line \<Rightarrow> json" where
  "order_line_data line =
     JObject [(''product_code'', JString (product_code line)),
              (''quantity'', JInt (quantity line)),
              (''unit_price'', JFloat (unit_price line)),
              (''line_total'', JFloat (line_total line))]"

definition export_row :: "(json \<Rightarrow> string) \<Rightarrow> order \<Rightarrow> (string \<rightharpoonup> cell)" where
  \<comment> \<open>the body of the export loop; the parameter is \<open>json.dumps\<close>\<close>
  "export_row json_dumps ord =
     (let row = to_dict ord
      in if order_lines ord \<noteq> []
         then row(''OrderLinesJSON'' \<mapsto>
                Text (json_dumps (JArray (map order_line_data (order_lines ord)))))
         else row(''OrderLinesJSON'' \<mapsto> Text []))"

definition export_orders ::
  "(json \<Rightarrow> string) \<Rightarrow> (string list \<Rightarrow> (string \<rightharpoonup> cell) list \<Rightarrow> string) \<Rightarrow> write_outcome
     \<Rightarrow> order list \<Rightarrow> text_file \<Rightarrow> text_file \<times> (py_error + unit)" where
  \<comment> \<open>The parameters are \<open>json.dumps\<close>, the text a \<open>csv.DictWriter\<close> writes for a header and
      rows, and how the write goes; a failure is printed and raised again. The result is
      the file as the call leaves it and how the call ends.\<close>
  "export_orders json_dumps dict_writer outcome orders f =
     (write_text outcome (dict_writer fieldnames (map (export_row json_dumps) orders)) f,
      if outcome = Written then Inr () else Inl IOError)"

datatype row_value = Str string | Parsed json

datatype loads_result =
    Loaded json         \<comment> \<open>\<open>json.loads\<close> returns\<close>
  | JSONDecodeError     \<comment> \<open>it raises \<open>json.JSONDecodeError\<close>\<close>
  | Raised py_error     \<comment> \<open>it raises another exception (\<open>RecursionError\<close> on deep nesting,
                            \<open>ValueError\<close> on an over-long integer)\<close>

definition import_row ::
  "(string \<Rightarrow> loads_result) \<Rightarrow> (string \<rightharpoonup> string) \<Rightarrow> py_error + (string \<rightharpoonup> row_value)" where
  \<comment> \<open>the body of the import loop; the parameter is \<open>json.loads\<close>. The inner \<open>try\<close> catches
      \<open>json.JSONDecodeError\<close> only.\<close>
  "import_row json_loads row =
     (let out = map_option Str \<circ> row
      in case row ''OrderLinesJSON'' of
           None \<Rightarrow> Inr (out(''order_lines'' \<mapsto> Parsed (JArray [])))
         | Some s \<Rightarrow>
             if s \<noteq> []
             then (case json_loads s of
                     Loaded v \<Rightarrow> Inr (out(''order_lines'' \<mapsto> Parsed v))
                   | JSONDecodeError \<Rightarrow> Inr (out(''order_lines'' \<mapsto> Parsed (JArray [])))
                   | Raised e \<Rightarrow> Inl e)
             else Inr (out(''order_lines'' \<mapsto> Parsed (JArray []))))"

fun import_rows ::
  "(string \<Rightarrow> loads_result) \<Rightarrow> (string \<rightharpoonup> string) list \<Rightarrow> py_error + (string \<rightharpoonup> row_value) list" where
  \<comment> \<open>the \<open>for row in reader\<close> loop: the first exception ends it\<close>
  "import_rows json_loads [] = Inr []"
| "import_rows json_loads (row # rows) =
     (case import_row json_loads row of
        Inl e \<Rightarrow> Inl e
      | Inr r \<Rightarrow> (case import_rows json_loads rows of
                   Inl e \<Rightarrow> Inl e
                 | Inr rs \<Rightarrow> Inr (r # rs)))"

definition import_orders ::
  "(string \<Rightarrow> loads_result) \<Rightarrow> (string \<Rightarrow> py_error + (string \<rightharpoonup> string) list) \<Rightarrow> text_file
     \<Rightarrow> py_error + (string \<rightharpoonup> row_value) list" where
  \<comment> \<open>The parameters are \<open>json.loads\<close> and the rows a \<open>csv.DictReader\<close> yields on a text
      (\<open>Inl\<close> when it raises). Every exception that reaches the outer \<open>try\<close> is printed and
      raised again.\<close>
  "import_orders json_loads dict_reader f =
     (case f of
        Missing \<Rightarrow> Inl IOError
      | Unreadable \<Rightarrow> Inl IOError
      | Readable content \<Rightarrow>
          (case dict_reader content of
             Inl e \<Rightarrow> Inl e
           | Inr rows \<Rightarrow> import_rows json_loads rows))"

definition json_round_trips :: "(json \<Rightarrow> string) \<Rightarrow> (string \<Rightarrow> loads_result) \<Rightarrow> json \<Rightarrow> bool" where
  \<comment> \<open>the contract of the JSON library at one value: the text written is not empty and
      reads back as the value\<close>
  "json_round_trips json_dumps json_loads v \<longleftrightarrow>
     json_dumps v \<noteq> [] \<and> json_loads (json_dumps v) = Loaded v"

definition csv_keeps_column ::
  "(string list \<Rightarrow> (string \<rightharpoonup> cell) list \<Rightarrow> string) \<Rightarrow> (string \<Rightarrow> py_error + (string \<rightharpoonup> string) list)
     \<Rightarrow> string \<Rightarrow> (string \<rightharpoonup> cell) list \<Rightarrow> bool" where
  \<comment> \<open>the contract of the CSV library at one list of rows and one column: the reader
      yields one row per row written, holding in that column the text written there\<close>
  "csv_keeps_column dict_writer dict_reader col rows \<longleftrightarrow>
     (case dict_reader (dict_writer fieldnames rows) of
        Inl e \<Rightarrow> False
      | Inr rows' \<Rightarrow>
          map (\<lambda>r. r col) rows' =
          map (\<lambda>r. case r col of Some (Text s) \<Rightarrow> Some s | _ \<Rightarrow> None) rows)"

subsection \<open>Lines that survive a write and a read\<close>

definition trimmed :: "string \<Rightarrow> bool" where
  \<comment> \<open>no whitespace at either end\<close>
  "trimmed s \<longleftrightarrow> s = [] \<or> (\<not> isspace (hd s) \<and> \<not> isspace (last s))"

definition good_line :: "string \<Rightarrow> bool" where
  \<comment> \<open>an entry that one line of a history file holds: not empty, trimmed, no line break\<close>
  "good_line x \<longleftrightarrow> x \<noteq> [] \<and> trimmed x \<and> LF \<notin> set x \<and> CR \<notin> set x"

section \<open>Properties\<close>

subsection \<open>Phone validation\<close>

lemma split_on_nonempty: "split_on P s \<noteq> []"
  by (induction s) (auto split: list.splits)

lemma clean_phone_filter: "clean_phone part = filter (\<lambda>c. c \<notin> set '' -()'') part"
  by (auto simp: clean_phone_def remove_char_def intro: filter_cong)

lemma phone_part_ok_digits:
  "phone_part_ok part \<longleftrightarrow>
     isdigit (phone_digits part) \<and> 8 \<le> length (phone_digits part) \<and> length (phone_digits part) \<le> 15"
  unfolding phone_part_ok_def phone_digits_def clean_phone_filter [symmetric] Let_def isdigit_def
  by (cases "clean_phone part") (auto simp: list_all_iff)

lemma check_phone_parts_iff:
  "fst (check_phone_parts parts) \<longleftrightarrow> (\<forall>p \<in> set parts. phone_part_ok p)"
  by (induction parts) (auto simp: phone_part_ok_digits Let_def)

lemma check_phone_parts_message:
  "fst (check_phone_parts parts) \<longleftrightarrow> snd (check_phone_parts parts) = PhoneOK"
  by (induction parts) (auto simp: Let_def)

text \<open>
  C4. \<open>validate_phone\<close> answers valid exactly when the input has at least one non-blank
  part between slashes and every such part, trimmed, is 8 to 15 digits once spaces, dashes,
  parentheses and one leading plus sign are removed; the answer is a pair of a flag and a
  message in every case, the message being "OK" exactly when the flag is true; the two
  examples of the specification evaluate as stated.
\<close>

theorem validate_phone_spec:
  "(fst (validate_phone ph) \<longleftrightarrow>
      phone_parts ph \<noteq> [] \<and> (\<forall>p \<in> set (phone_parts ph). phone_part_ok p))
   \<and> (fst (validate_phone ph) \<longleftrightarrow> snd (validate_phone ph) = PhoneOK)
   \<and> phone_parts ''034 12 345 67 / +261321234567'' = [''034 12 345 67'', ''+261321234567'']
   \<and> validate_phone ''034 12 345 67 / +261321234567'' = (True, PhoneOK)
   \<and> validate_phone ''abc'' = (False, InvalidCharacters ''abc'')"
proof -
  have a: "fst (validate_phone ph) \<longleftrightarrow>
      phone_parts ph \<noteq> [] \<and> (\<forall>p \<in> set (phone_parts ph). phone_part_ok p)"
  proof (cases "ph = []")
    case True
    then show ?thesis
      by (simp add: validate_phone_def phone_parts_def strip_def lstrip_def rstrip_def)
  next
    case False
    then show ?thesis
      by (simp add: validate_phone_def Let_def check_phone_parts_iff)
  qed
  have b: "fst (validate_phone ph) \<longleftrightarrow> snd (validate_phone ph) = PhoneOK"
    by (simp add: validate_phone_def Let_def check_phone_parts_message)
  have c: "phone_parts ''034 12 345 67 / +261321234567'' = [''034 12 345 67'', ''+261321234567'']"
    by (simp add: phone_parts_def strip_def lstrip_def rstrip_def isspace_def)
  have d: "validate_phone ''034 12 345 67 / +261321234567'' = (True, PhoneOK)"
    by (simp add: validate_phone_def c phone_digits_def clean_phone_def remove_char_def
        isdigit_def is_digit_def)
  have e: "validate_phone ''abc'' = (False, InvalidCharacters ''abc'')"
    by (simp add: validate_phone_def phone_parts_def strip_def lstrip_def rstrip_def isspace_def
        phone_digits_def clean_phone_def remove_char_def isdigit_def is_digit_def)
  from a b c d e show ?thesis by blast
qed

theorem validate_phone_spec_witness:
  "phone_parts ''12345678/+261 32-(12) 34'' = [''12345678'', ''+261 32-(12) 34'']
   \<and> phone_part_ok ''12345678'' \<and> phone_part_ok ''+261 32-(12) 34''
   \<and> fst (validate_phone ''12345678/+261 32-(12) 34'')"
proof -
  have parts: "phone_parts ''12345678/+261 32-(12) 34'' = [''12345678'', ''+261 32-(12) 34'']"
    by (simp add: phone_parts_def strip_def lstrip_def rstrip_def isspace_def)
  have ok: "phone_part_ok ''12345678'' \<and> phone_part_ok ''+261 32-(12) 34''"
    by (simp add: phone_part_ok_def is_digit_def)
  from parts ok validate_phone_spec [of "''12345678/+261 32-(12) 34''"] show ?thesis
    by simp
qed

subsection \<open>Product-field parser: the two examples and the exception\<close>

text \<open>
  C2. On the two inputs of the specification \<open>parse_product_field\<close> returns the stated
  entries, a negative quantity is kept and a repeated code gives two entries; on the input
  \<open># --5\<close> no entry is returned: the item does not start with an alphanumeric character,
  the fallback accepts \<open>--5\<close> as a number because \<open>lstrip("-")\<close> leaves digits, and
  \<open>int("--5")\<close> raises \<open>ValueError\<close>, which leaves the function.
\<close>

theorem parse_product_field_raises:
  "parse_product_field ''# --5'' = Inl ValueError
   \<and> parse_product_field ''CA x 2, TA:1'' = Inr [\<lparr>code = ''CA'', qty = 2\<rparr>, \<lparr>code = ''TA'', qty = 1\<rparr>]
   \<and> parse_product_field ''CG'' = Inr [\<lparr>code = ''CG'', qty = 1\<rparr>]
   \<and> parse_product_field ''ca -3;ca'' = Inr [\<lparr>code = ''CA'', qty = - 3\<rparr>, \<lparr>code = ''CA'', qty = 1\<rparr>]"
  by (simp add: parse_product_field_def parse_item_def PRODUCT_PATTERN_def signed_digits_def
      split_ws_def strip_def lstrip_def rstrip_def isspace_def is_alnum_def is_digit_def
      isdigit_def py_int_def upper_def upper_char_def digits_value_def digit_val_def
      remove_char_def Let_def)

subsection \<open>Numeric parsing\<close>

text \<open>
  C6. \<open>parse_numeric\<close> reads 25000 from \<open>25000\<close>, \<open>25 000\<close>, \<open>25,000\<close>, \<open>25000 Ar\<close> and
  \<open>25000 ar\<close>, but the suffix is removed in these two spellings only: on \<open>25000 AR\<close> and on
  \<open>25000 aR\<close> the letters stay, \<open>int\<close> fails and the result is the absent value.
\<close>

theorem parse_numeric_suffix_case:
  "parse_numeric py_float (Some ''25000 AR'') True = None
   \<and> parse_numeric py_float (Some ''25000 aR'') True = None
   \<and> parse_numeric py_float (Some ''25000'') True = Some (IntVal 25000)
   \<and> parse_numeric py_float (Some ''25 000'') True = Some (IntVal 25000)
   \<and> parse_numeric py_float (Some ''25,000'') True = Some (IntVal 25000)
   \<and> parse_numeric py_float (Some ''25000 Ar'') True = Some (IntVal 25000)
   \<and> parse_numeric py_float (Some ''25000 ar'') True = Some (IntVal 25000)"
  by (simp add: parse_numeric_def strip_def lstrip_def rstrip_def isspace_def is_digit_def
      isdigit_def py_int_def digits_value_def digit_val_def remove_char_def Let_def)

subsection \<open>Order validity\<close>

lemma strip_Nil: "strip [] = []"
  by (simp add: strip_def lstrip_def rstrip_def)

lemma strip_nonempty_arg: "strip s \<noteq> [] \<Longrightarrow> s \<noteq> []"
  by (auto simp: strip_Nil)

text \<open>
  C8. \<open>Order.is_valid\<close> is true exactly when the client name, the phone and the address
  are not empty once trimmed and the delivery fee is present and not less than zero: a
  fee that is non-negative, or NaN, for which \<open>delivery_fee < 0\<close> is false as well. The method
  only reads its fields, so it is a function of the order and the order is the same after
  the call.
\<close>

theorem is_valid_spec:
  "is_valid ord \<longleftrightarrow>
     strip (client_name ord) \<noteq> [] \<and> strip (phone ord) \<noteq> [] \<and> strip (address ord) \<noteq> []
     \<and> (\<exists>fee. delivery_fee ord = Some fee \<and> (float_ge_zero fee \<or> fee = NaN))"
proof (cases "delivery_fee ord")
  case None
  then show ?thesis by (simp add: is_valid_def)
next
  case (Some fee)
  have "\<not> float_lt_zero fee \<longleftrightarrow> float_ge_zero fee \<or> fee = NaN"
    by (cases fee) auto
  with Some show ?thesis
    using strip_nonempty_arg [of "client_name ord"] strip_nonempty_arg [of "phone ord"]
      strip_nonempty_arg [of "address ord"]
    by (auto simp: is_valid_def strip_Nil)
qed

theorem is_valid_nan_counterexample:
  "is_valid \<lparr>client_name = ''Rina'', phone = ''0341234567'', address = ''Lot 12'',
      delivery_fee = Some NaN, products = ''CA'', total_price = NaN, status = ''Pending'',
      agent = ''Jean'', order_notes = [], order_lines = []\<rparr>
   \<and> \<not> float_ge_zero NaN"
  by (simp add: is_valid_def strip_def lstrip_def rstrip_def isspace_def)

subsection \<open>Agents file\<close>

text \<open>
  C9. \<open>load_agents\<close> never returns an empty list: it returns the five default agents when
  the file is missing, when reading it fails and when every line of it is blank, and the
  non-empty list of trimmed lines otherwise.
\<close>

theorem load_agents_never_empty:
  "load_agents f \<noteq> []
   \<and> load_agents Missing = DEFAULT_AGENTS
   \<and> load_agents Unreadable = DEFAULT_AGENTS
   \<and> ((\<forall>line \<in> set (split_on (\<lambda>c. c = LF) (universal_newlines content)). strip line = [])
        \<longrightarrow> load_agents (Readable content) = DEFAULT_AGENTS)
   \<and> get_default_agents = DEFAULT_AGENTS
   \<and> length DEFAULT_AGENTS = 5"
proof -
  have d: "DEFAULT_AGENTS \<noteq> []" by (simp add: DEFAULT_AGENTS_def)
  have a: "load_agents f \<noteq> []"
    by (cases f) (simp_all add: load_agents_def get_default_agents_def d Let_def)
  have b: "(\<forall>line \<in> set (split_on (\<lambda>c. c = LF) (universal_newlines content)). strip line = [])
        \<longrightarrow> load_agents (Readable content) = DEFAULT_AGENTS"
    by (auto simp: load_agents_def get_default_agents_def stripped_lines_def Let_def filter_empty_conv)
  show ?thesis
    using a b by (simp add: load_agents_def get_default_agents_def DEFAULT_AGENTS_def)
qed


theorem load_agents_never_empty_witness:
  "strip '' '' = [] \<and> strip [CHR 0x09] = []
   \<and> load_agents (Readable ('' '' @ [LF, CHR 0x09, LF])) =
       [''Jean'', ''Hery'', ''Mamy'', ''Rado'', ''External Courier'']"
proof -
  have u: "split_on (\<lambda>c. c = LF) (universal_newlines ('' '' @ [LF, CHR 0x09, LF]))
      = ['' '', [CHR 0x09], []]"
    by (simp add: LF_def CR_def)
  have s: "strip '' '' = [] \<and> strip [CHR 0x09] = []"
    by (simp add: strip_def lstrip_def rstrip_def isspace_def)
  have blank: "\<forall>line \<in> set (split_on (\<lambda>c. c = LF) (universal_newlines ('' '' @ [LF, CHR 0x09, LF]))).
      strip line = []"
    unfolding u using s by (simp add: strip_Nil)
  have "load_agents (Readable ('' '' @ [LF, CHR 0x09, LF])) = DEFAULT_AGENTS"
    using load_agents_never_empty [of Missing "'' '' @ [LF, CHR 0x09, LF]"] blank by blast
  then show ?thesis
    using s by (simp add: DEFAULT_AGENTS_def)
qed

subsection \<open>Product prices\<close>

lemma upper_char_idem: "upper_char (upper_char c) = upper_char c"
  by (simp add: upper_char_def)

lemma upper_idem: "upper (upper s) = upper s"
  by (simp add: upper_def upper_char_idem)

lemma add_product_rows_upper_keys:
  "\<forall>k \<in> dom ps. upper k = k \<Longrightarrow> \<forall>k \<in> dom (add_product_rows pf rows ps). upper k = k"
proof (induction rows arbitrary: ps)
  case Nil
  then show ?case by simp
next
  case (Cons row rows)
  show ?case
  proof (cases "length row < 3")
    case True
    with Cons show ?thesis by simp
  next
    case False
    show ?thesis
    proof (cases "pf (strip (row ! 2))")
      case None
      with False Cons show ?thesis by simp
    next
      case (Some price)
      have keys: "\<forall>k \<in> dom (ps(upper (strip (row ! 0)) \<mapsto> price)). upper k = k"
        using Cons.prems by (auto simp: upper_idem)
      have step: "add_product_rows pf (row # rows) ps =
          add_product_rows pf rows (ps(upper (strip (row ! 0)) \<mapsto> price))"
        using False Some by simp
      show ?thesis unfolding step by (rule Cons.IH [OF keys])
    qed
  qed
qed

lemma load_products_upper_keys:
  "\<forall>k \<in> dom (snd (load_products pf rd w f)). upper k = k"
proof -
  have e: "\<forall>k \<in> dom (Map.empty :: string \<rightharpoonup> rat). upper k = k" by simp
  note r = add_product_rows_upper_keys [OF e]
  show ?thesis
    unfolding load_products_def Let_def snd_conv
    by (auto split: text_file.splits sum.splits simp: r)
qed

text \<open>
  C10. \<open>get_product_price\<close> looks the upper-cased code up: two codes that differ in case
  only get the same price, the price stored under the upper-cased code is returned, and a
  code whose upper-cased form is not a key of the catalog gets the price 0. The catalogs
  that \<open>load_products\<close> returns have upper-cased keys only.
\<close>

theorem get_product_price_spec:
  "(upper c = upper c' \<longrightarrow> get_product_price c ps = get_product_price c' ps)
   \<and> (ps (upper c) = Some price \<longrightarrow> get_product_price c ps = price)
   \<and> (upper c \<notin> dom ps \<longrightarrow> get_product_price c ps = 0)
   \<and> (\<forall>k \<in> dom (snd (load_products pf rd w f)). upper k = k)"
  using load_products_upper_keys [of pf rd w f]
  by (auto simp: get_product_price_def split: option.splits)

theorem get_product_price_spec_witness:
  "upper ''ca'' = upper ''Ca''
   \<and> get_product_price ''ca'' [''CA'' \<mapsto> 25000] = get_product_price ''Ca'' [''CA'' \<mapsto> 25000]
   \<and> [''CA'' \<mapsto> (25000 :: rat)] (upper ''ca'') = Some 25000
   \<and> get_product_price ''ca'' [''CA'' \<mapsto> 25000] = 25000
   \<and> upper ''zz'' \<notin> dom [''CA'' \<mapsto> (25000 :: rat)]
   \<and> get_product_price ''zz'' [''CA'' \<mapsto> 25000] = 0
   \<and> ''CA'' \<in> dom (snd (load_products (\<lambda>s. Some 1) (\<lambda>s. Inr [[''ca'', ''x'', ''1'']]) True Missing))
   \<and> upper ''CA'' = ''CA''"
proof -
  have h1: "upper ''ca'' = upper ''Ca''"
    by (simp add: upper_def upper_char_def)
  have h2: "[''CA'' \<mapsto> (25000 :: rat)] (upper ''ca'') = Some 25000"
    by (simp add: upper_def upper_char_def)
  have h3: "upper ''zz'' \<notin> dom [''CA'' \<mapsto> (25000 :: rat)]"
    by (simp add: upper_def upper_char_def)
  have h4: "''CA'' \<in> dom (snd (load_products (\<lambda>s. Some 1) (\<lambda>s. Inr [[''ca'', ''x'', ''1'']]) True Missing))"
    by (simp add: load_products_def save_products_example_def upper_def upper_char_def
        lower_char_def strip_def lstrip_def rstrip_def isspace_def Let_def)
  note t1 = get_product_price_spec [of "''ca''" "''Ca''" "[''CA'' \<mapsto> 25000]" 25000
      "\<lambda>s. Some 1" "\<lambda>s. Inr [[''ca'', ''x'', ''1'']]" True Missing]
  note t2 = get_product_price_spec [of "''zz''" "''zz''" "[''CA'' \<mapsto> 25000]" 0
      "\<lambda>s. Some 1" "\<lambda>s. Inr [[''ca'', ''x'', ''1'']]" True Missing]
  from t1 h1 have c1: "get_product_price ''ca'' [''CA'' \<mapsto> 25000] =
      get_product_price ''Ca'' [''CA'' \<mapsto> 25000]" by blast
  from t1 h2 have c2: "get_product_price ''ca'' [''CA'' \<mapsto> 25000] = 25000" by blast
  from t2 h3 have c3: "get_product_price ''zz'' [''CA'' \<mapsto> 25000] = 0" by blast
  from t1 h4 have c4: "upper ''CA'' = ''CA''" by blast
  from h1 h2 h3 h4 c1 c2 c3 c4 show ?thesis by blast
qed

subsection \<open>Read failures\<close>

text \<open>
  C3. A failed read is absorbed by the address history (empty list), by the agents list
  (the defaults) and by the product catalog (empty dictionary), whether the file is
  missing, unreadable, or its rows cannot be parsed. The order import is different: it
  prints the failure and raises it again, for the window to show it in a dialog.
\<close>

theorem read_failures_absorbed_except_import:
  "load_addresses Missing = [] \<and> load_addresses Unreadable = []
   \<and> load_agents Missing = DEFAULT_AGENTS \<and> load_agents Unreadable = DEFAULT_AGENTS
   \<and> snd (load_products pf rd False Missing) = Map.empty
   \<and> snd (load_products pf rd w Unreadable) = Map.empty
   \<and> (rd content = Inl e \<longrightarrow> snd (load_products pf rd w (Readable content)) = Map.empty)
   \<and> import_orders jl dr Missing = Inl IOError
   \<and> import_orders jl dr Unreadable = Inl IOError
   \<and> (dr content = Inl e \<longrightarrow> import_orders jl dr (Readable content) = Inl e)"
  by (simp add: load_addresses_def load_agents_def get_default_agents_def load_products_def
      save_products_example_def import_orders_def)

theorem read_failures_absorbed_except_import_witness:
  "snd (load_products (\<lambda>s. None) (\<lambda>s. Inl ValueError) True (Readable ''x,y'')) = Map.empty
   \<and> import_orders (\<lambda>s. JSONDecodeError) (\<lambda>s. Inl ValueError) (Readable ''x,y'') = Inl ValueError"
  using read_failures_absorbed_except_import [where pf = "\<lambda>s. None" and rd = "\<lambda>s. Inl ValueError"
      and content = "''x,y''" and e = ValueError and w = True and jl = "\<lambda>s. JSONDecodeError"
      and dr = "\<lambda>s. Inl ValueError"]
  by simp

theorem import_orders_raises_counterexample:
  "import_orders (\<lambda>s. JSONDecodeError) (\<lambda>s. Inr []) Unreadable = Inl IOError
   \<and> import_orders (\<lambda>s. JSONDecodeError) (\<lambda>s. Inr []) Unreadable \<noteq> Inr []"
  by (simp add: import_orders_def)

subsection \<open>Address history round trip\<close>

lemma universal_newlines_no_CR: "CR \<notin> set (universal_newlines s)"
  by (induction s rule: universal_newlines.induct) (auto simp: LF_def CR_def)

lemma universal_newlines_id: "CR \<notin> set s \<Longrightarrow> universal_newlines s = s"
  by (induction s rule: universal_newlines.induct) auto

lemma split_on_pieces: "w \<in> set (split_on P s) \<Longrightarrow> c \<in> set w \<Longrightarrow> \<not> P c \<and> c \<in> set s"
proof (induction s arbitrary: w)
  case Nil
  then show ?case by simp
next
  case (Cons x xs)
  show ?case
  proof (cases "P x")
    case True
    with Cons show ?thesis by auto
  next
    case False
    obtain v vs where sp: "split_on P xs = v # vs"
      using split_on_nonempty [of P xs] by (cases "split_on P xs") auto
    with False Cons.prems have "w = x # v \<or> w \<in> set vs" by simp
    then show ?thesis
    proof
      assume "w = x # v"
      with Cons.prems(2) have "c = x \<or> c \<in> set v" by simp
      then show ?thesis
        using False Cons.IH [of v] sp by auto
    next
      assume "w \<in> set vs"
      then show ?thesis using Cons.IH [of w] sp Cons.prems(2) by auto
    qed
  qed
qed

lemma split_on_line: "\<forall>c \<in> set x. \<not> P c \<Longrightarrow> P l \<Longrightarrow> split_on P (x @ l # rest) = x # split_on P rest"
  by (induction x) auto

lemma rstrip_prefix: "s = rstrip s @ rev (takeWhile isspace (rev s))"
proof -
  have "rev (dropWhile isspace (rev s)) @ rev (takeWhile isspace (rev s))
      = rev (takeWhile isspace (rev s) @ dropWhile isspace (rev s))"
    by (simp only: rev_append)
  also have "\<dots> = s"
    by (simp only: takeWhile_dropWhile_id rev_rev_ident)
  finally show ?thesis by (simp add: rstrip_def)
qed

lemma set_strip: "set (strip s) \<subseteq> set s"
proof -
  have "set (rstrip t) \<subseteq> set t" for t
    using set_dropWhileD [of _ isspace "rev t"] by (auto simp: rstrip_def)
  moreover have "set (lstrip t) \<subseteq> set t" for t
    using set_dropWhileD [of _ isspace t] by (auto simp: lstrip_def)
  ultimately show ?thesis unfolding strip_def by blast
qed

lemma trimmed_strip: "trimmed (strip s)"
proof (cases "strip s = []")
  case True
  then show ?thesis by (simp add: trimmed_def)
next
  case False
  let ?t = "lstrip s"
  have ne: "rstrip ?t \<noteq> []" using False by (simp add: strip_def)
  have l: "\<not> isspace (last (rstrip ?t))"
    using ne hd_dropWhile [of isspace "rev ?t"] by (simp add: rstrip_def last_rev)
  have "?t = rstrip ?t @ rev (takeWhile isspace (rev ?t))" by (rule rstrip_prefix)
  then have "hd ?t = hd (rstrip ?t)" using ne by (metis hd_append2)
  moreover have "?t \<noteq> []" using ne by (auto simp: rstrip_def)
  ultimately have h: "\<not> isspace (hd (rstrip ?t))"
    using hd_dropWhile [of isspace s] by (simp add: lstrip_def)
  from l h show ?thesis by (simp add: trimmed_def strip_def)
qed

lemma strip_trimmed: "trimmed s \<Longrightarrow> strip s = s"
proof (cases "s = []")
  case True
  then show ?thesis by (simp add: strip_Nil)
next
  case False
  assume "trimmed s"
  with False have h: "\<not> isspace (hd s)" and l: "\<not> isspace (last s)" by (auto simp: trimmed_def)
  from False h have a: "lstrip s = s" by (cases s) (auto simp: lstrip_def)
  from False l have "dropWhile isspace (rev s) = rev s"
    by (cases "rev s") (auto simp: last_rev hd_rev)
  then have "rstrip s = s" by (simp add: rstrip_def)
  with a show ?thesis by (simp add: strip_def)
qed

lemma stripped_lines_good: "x \<in> set (stripped_lines content) \<Longrightarrow> good_line x"
proof -
  assume "x \<in> set (stripped_lines content)"
  then obtain l where l: "l \<in> set (split_on (\<lambda>c. c = LF) (universal_newlines content))"
    and x: "x = strip l" and ne: "strip l \<noteq> []"
    by (auto simp: stripped_lines_def)
  have "\<forall>c \<in> set l. c \<noteq> LF \<and> c \<in> set (universal_newlines content)"
    using split_on_pieces [OF l] by blast
  then have "LF \<notin> set l \<and> CR \<notin> set l"
    using universal_newlines_no_CR [of content] by auto
  then have "LF \<notin> set x \<and> CR \<notin> set x"
    using set_strip [of l] x by auto
  then show ?thesis using x ne trimmed_strip [of l] by (simp add: good_line_def)
qed

lemma split_write_lines:
  "\<forall>x \<in> set xs. LF \<notin> set x \<Longrightarrow> split_on (\<lambda>c. c = LF) (write_lines xs) = xs @ [[]]"
proof (induction xs)
  case Nil
  then show ?case by (simp add: write_lines_def)
next
  case (Cons x xs)
  have "write_lines (x # xs) = x @ LF # write_lines xs" by (simp add: write_lines_def)
  moreover have "\<forall>c \<in> set x. \<not> c = LF" using Cons.prems by auto
  ultimately show ?case
    using Cons by (simp add: split_on_line)
qed

lemma write_lines_no_CR: "\<forall>x \<in> set xs. CR \<notin> set x \<Longrightarrow> CR \<notin> set (write_lines xs)"
  by (auto simp: write_lines_def LF_def CR_def)

lemma stripped_lines_write_lines:
  assumes "\<forall>x \<in> set xs. good_line x"
  shows "stripped_lines (write_lines xs) = xs"
proof -
  have cr: "CR \<notin> set (write_lines xs)"
    using assms by (intro write_lines_no_CR) (simp add: good_line_def)
  have sp: "split_on (\<lambda>c. c = LF) (write_lines xs) = xs @ [[]]"
    using assms by (intro split_write_lines) (simp add: good_line_def)
  have st: "\<forall>x \<in> set xs. strip x = x \<and> x \<noteq> []"
    using assms by (simp add: good_line_def strip_trimmed)
  then have f: "filter (\<lambda>line. strip line \<noteq> []) xs = xs"
    by (simp add: filter_id_conv)
  have "map strip xs = xs" using st by (simp add: map_idI)
  with f show ?thesis
    by (simp add: stripped_lines_def universal_newlines_id [OF cr] sp strip_Nil)
qed

lemma save_address_written:
  "strip a \<noteq> [] \<Longrightarrow>
     save_address w a f =
       write_text w (write_lines (take MAX_ADDRESS_HISTORY (strip a # remove1 (strip a) (load_addresses f)))) f"
  using strip_nonempty_arg [of a]
  by (simp add: save_address_def Let_def remove1_idem)

lemma new_history_good:
  assumes "strip a \<noteq> []" "LF \<notin> set (strip a)" "CR \<notin> set (strip a)"
  shows "\<forall>x \<in> set (take MAX_ADDRESS_HISTORY (strip a # remove1 (strip a) (load_addresses f))).
           good_line x"
proof
  fix x
  assume "x \<in> set (take MAX_ADDRESS_HISTORY (strip a # remove1 (strip a) (load_addresses f)))"
  then have "x \<in> set (strip a # remove1 (strip a) (load_addresses f))"
    by (rule in_set_takeD)
  then have "x = strip a \<or> x \<in> set (load_addresses f)"
    using set_remove1_subset [of "strip a" "load_addresses f"] by auto
  then show "good_line x"
  proof
    assume "x = strip a"
    with assms show ?thesis by (simp add: good_line_def trimmed_strip)
  next
    assume "x \<in> set (load_addresses f)"
    then show ?thesis
      by (cases f) (simp_all add: load_addresses_def stripped_lines_good)
  qed
qed

text \<open>
  C7. When the write succeeds and the trimmed address is not blank and holds no line
  break, loading after \<open>save_address\<close> gives the trimmed address first, then the earlier
  history without its first occurrence of that address, cut to 200 entries. For a history
  without duplicates that is the history with the address removed, and the result has no
  duplicates either. A blank address leaves the file as it was, however a write would go.
  When the file cannot be opened for writing it stays as it was; when a write fails after
  the file was opened, the file holds what got through and the earlier history is gone.
\<close>

theorem save_then_load:
  "(strip a \<noteq> [] \<and> LF \<notin> set (strip a) \<and> CR \<notin> set (strip a) \<longrightarrow>
      load_addresses (save_address Written a f) =
        take MAX_ADDRESS_HISTORY (strip a # remove1 (strip a) (load_addresses f))
      \<and> length (load_addresses (save_address Written a f)) \<le> 200
      \<and> (distinct (load_addresses f) \<longrightarrow>
           load_addresses (save_address Written a f) =
             take MAX_ADDRESS_HISTORY (strip a # removeAll (strip a) (load_addresses f))
           \<and> distinct (load_addresses (save_address Written a f))))
   \<and> (strip a = [] \<longrightarrow> save_address w a f = f)
   \<and> save_address OpenFailed a f = f
   \<and> (strip a \<noteq> [] \<longrightarrow> save_address (Interrupted p) a f = Readable p)"
proof -
  have blank: "strip a = [] \<longrightarrow> save_address w a f = f"
    by (simp add: save_address_def)
  have failed: "save_address OpenFailed a f = f"
    by (simp add: save_address_def write_text_def Let_def)
  have cut: "strip a \<noteq> [] \<longrightarrow> save_address (Interrupted p) a f = Readable p"
    by (simp add: save_address_written write_text_def)
  have main: "load_addresses (save_address Written a f) =
        take MAX_ADDRESS_HISTORY (strip a # remove1 (strip a) (load_addresses f))"
    if h: "strip a \<noteq> []" "LF \<notin> set (strip a)" "CR \<notin> set (strip a)"
    using stripped_lines_write_lines [OF new_history_good [OF h, of f]]
    by (simp add: save_address_written [OF h(1)] write_text_def load_addresses_def)
  have len: "length (take MAX_ADDRESS_HISTORY (strip a # remove1 (strip a) (load_addresses f))) \<le> 200"
    by (simp add: MAX_ADDRESS_HISTORY_def)
  have dist: "distinct (take MAX_ADDRESS_HISTORY (strip a # remove1 (strip a) (load_addresses f)))"
    if "distinct (load_addresses f)"
    using that by (intro distinct_take) simp
  have all: "remove1 (strip a) (load_addresses f) = removeAll (strip a) (load_addresses f)"
    if "distinct (load_addresses f)"
    using that by (rule distinct_remove1_removeAll)
  show ?thesis
  proof (intro conjI impI)
    assume h: "strip a \<noteq> [] \<and> LF \<notin> set (strip a) \<and> CR \<notin> set (strip a)"
    then show m: "load_addresses (save_address Written a f) =
        take MAX_ADDRESS_HISTORY (strip a # remove1 (strip a) (load_addresses f))"
      using main by blast
    show "length (load_addresses (save_address Written a f)) \<le> 200"
      unfolding m by (rule len)
    assume d: "distinct (load_addresses f)"
    show "load_addresses (save_address Written a f) =
        take MAX_ADDRESS_HISTORY (strip a # removeAll (strip a) (load_addresses f))"
      unfolding m all [OF d] ..
    show "distinct (load_addresses (save_address Written a f))"
      unfolding m by (rule dist [OF d])
  next
    assume "strip a = []"
    then show "save_address w a f = f" using blank by blast
  next
    show "save_address OpenFailed a f = f" by (rule failed)
  next
    assume "strip a \<noteq> []"
    then show "save_address (Interrupted p) a f = Readable p" using cut by blast
  qed
qed

theorem save_then_load_witness:
  "strip '' 12 Main St'' = ''12 Main St''
   \<and> LF \<notin> set ''12 Main St'' \<and> CR \<notin> set ''12 Main St''
   \<and> load_addresses (Readable (''B'' @ [LF] @ ''12 Main St'' @ [LF] @ ''C'' @ [LF]))
       = [''B'', ''12 Main St'', ''C'']
   \<and> distinct [''B'', ''12 Main St'', ''C'']
   \<and> load_addresses (save_address Written '' 12 Main St''
         (Readable (''B'' @ [LF] @ ''12 Main St'' @ [LF] @ ''C'' @ [LF])))
       = [''12 Main St'', ''B'', ''C'']
   \<and> strip [CHR 0x09, CHR '' ''] = []
   \<and> save_address Written [CHR 0x09, CHR '' ''] Unreadable = Unreadable
   \<and> save_address (Interrupted ''B'') '' 12 Main St''
         (Readable (''B'' @ [LF] @ ''12 Main St'' @ [LF] @ ''C'' @ [LF])) = Readable ''B''"
proof -
  let ?f = "Readable (''B'' @ [LF] @ ''12 Main St'' @ [LF] @ ''C'' @ [LF])"
  have s: "strip '' 12 Main St'' = ''12 Main St''"
    by (simp add: strip_def lstrip_def rstrip_def isspace_def)
  have n: "LF \<notin> set ''12 Main St'' \<and> CR \<notin> set ''12 Main St''"
    by (simp add: LF_def CR_def)
  have l: "load_addresses ?f = [''B'', ''12 Main St'', ''C'']"
    by (simp add: load_addresses_def stripped_lines_def LF_def CR_def strip_def lstrip_def
        rstrip_def isspace_def)
  have d: "distinct [''B'', ''12 Main St'', ''C'']" by simp
  have b: "strip [CHR 0x09, CHR '' ''] = []"
    by (simp add: strip_def lstrip_def rstrip_def isspace_def)
  note t = save_then_load [of "'' 12 Main St''" ?f Written "''B''"]
  note t' = save_then_load [of "[CHR 0x09, CHR '' '']" Unreadable Written "''B''"]
  from t s n have "load_addresses (save_address Written '' 12 Main St'' ?f) =
        take MAX_ADDRESS_HISTORY (''12 Main St'' # remove1 ''12 Main St'' (load_addresses ?f))"
    by simp
  then have r: "load_addresses (save_address Written '' 12 Main St'' ?f) = [''12 Main St'', ''B'', ''C'']"
    unfolding l by (simp add: MAX_ADDRESS_HISTORY_def)
  from t' b have e: "save_address Written [CHR 0x09, CHR '' ''] Unreadable = Unreadable"
    by blast
  from t s have c: "save_address (Interrupted ''B'') '' 12 Main St'' ?f = Readable ''B''"
    by simp
  from s n l d r b e c show ?thesis by blast
qed

theorem save_then_load_counterexample:
  "strip (''a'' @ [LF] @ ''b'') = ''a'' @ [LF] @ ''b''
   \<and> load_addresses (save_address Written (''a'' @ [LF] @ ''b'') Missing) = [''a'', ''b'']
   \<and> load_addresses (Readable (''x'' @ [LF] @ ''x'' @ [LF])) = [''x'', ''x'']
   \<and> load_addresses (save_address Written ''x'' (Readable (''x'' @ [LF] @ ''x'' @ [LF]))) = [''x'', ''x'']"
  by (simp add: save_address_def write_text_def load_addresses_def stripped_lines_def write_lines_def
      MAX_ADDRESS_HISTORY_def LF_def CR_def strip_def lstrip_def rstrip_def isspace_def Let_def)

subsection \<open>Currency formatting\<close>






lemma split_on_no_sep: "\<forall>c \<in> set xs. \<not> P c \<Longrightarrow> split_on P xs = [xs]"
  by (induction xs) auto





















lemma excess_bits_bounds:
  "2 ^ 53 \<le> n \<Longrightarrow> 2 ^ 52 * 2 ^ excess_bits n \<le> n \<and> n < 2 ^ 53 * 2 ^ excess_bits n"
proof (induction n rule: excess_bits.induct)
  case (1 n)
  show ?case
  proof (cases "n div 2 < 2 ^ 53")
    case True
    then have z: "excess_bits (n div 2) = 0" by (subst excess_bits.simps) simp
    have e: "excess_bits n = 1" using 1(2) z by (subst excess_bits.simps) simp
    from True have "n < 2 ^ 54" by simp
    with 1(2) e show ?thesis by simp
  next
    case False
    then have ih: "2 ^ 52 * 2 ^ excess_bits (n div 2) \<le> n div 2
        \<and> n div 2 < 2 ^ 53 * 2 ^ excess_bits (n div 2)"
      using 1 by simp
    have e: "excess_bits n = Suc (excess_bits (n div 2))"
      using 1(2) by (subst excess_bits.simps) simp
    from ih have "2 * (2 ^ 52 * 2 ^ excess_bits (n div 2)) \<le> n"
      and "n < 2 * (2 ^ 53 * 2 ^ excess_bits (n div 2))" by linarith+
    then show ?thesis by (simp add: e)
  qed
qed

lemma round_to_double_ge: "2 ^ 53 \<le> n \<Longrightarrow> 2 ^ 52 * 2 ^ excess_bits n \<le> round_to_double n"
proof -
  assume a: "2 ^ 53 \<le> n"
  let ?e = "excess_bits n"
  let ?q = "n div 2 ^ ?e"
  have "2 ^ 52 * 2 ^ ?e \<le> n" using excess_bits_bounds [OF a] by blast
  then have "2 ^ 52 \<le> ?q"
    by (simp add: less_eq_div_iff_mult_less_eq)
  then have q: "2 ^ 52 * 2 ^ ?e \<le> ?q * 2 ^ ?e" by (rule mult_le_mono1)
  have "?q \<le> (if 2 * (n mod 2 ^ ?e) < 2 ^ ?e then ?q else if 2 ^ ?e < 2 * (n mod 2 ^ ?e) then ?q + 1
                else if even ?q then ?q else ?q + 1)" by simp
  then have "?q * 2 ^ ?e \<le> round_to_double n"
    unfolding round_to_double_def Let_def by (rule mult_le_mono1)
  with q show ?thesis by (rule le_trans)
qed

lemma int_to_float_overflow: "2 ^ 1024 \<le> \<bar>i\<bar> \<Longrightarrow> int_to_float i = None"
proof -
  assume a: "2 ^ 1024 \<le> \<bar>i\<bar>"
  let ?n = "nat \<bar>i\<bar>"
  let ?e = "excess_bits ?n"
  have n: "2 ^ 1024 \<le> ?n" using a by (simp add: le_nat_iff)
  have "(2 :: nat) ^ 53 \<le> 2 ^ 1024" by (rule power_increasing) simp_all
  from this n have big: "2 ^ 53 \<le> ?n" by (rule le_trans)
  from excess_bits_bounds [OF big] have "?n < 2 ^ 53 * 2 ^ ?e" by blast
  with n have "(2 :: nat) ^ 1024 < 2 ^ (53 + ?e)" by (simp only: power_add)
  then have "1024 < 53 + ?e" by (simp only: power_strict_increasing_iff one_less_numeral_iff semiring_norm)
  then have "1024 \<le> 52 + ?e" by linarith
  then have "(2 :: nat) ^ 1024 \<le> 2 ^ (52 + ?e)"
    by (intro power_increasing) simp_all
  then have "(2 :: nat) ^ 1024 \<le> 2 ^ 52 * 2 ^ ?e" by (simp only: power_add)
  from this round_to_double_ge [OF big] have "2 ^ 1024 \<le> round_to_double ?n" by (rule le_trans)
  then show ?thesis by (simp only: int_to_float_def Let_def if_True)
qed





subsection \<open>Order export and import\<close>

lemma export_row_cell:
  "export_row jd ord ''OrderLinesJSON'' =
     Some (Text (if order_lines ord \<noteq> [] then jd (JArray (map order_line_data (order_lines ord)))
                 else []))"
  by (simp add: export_row_def Let_def)

lemma import_row_empty:
  "row ''OrderLinesJSON'' = Some [] \<or> row ''OrderLinesJSON'' = None \<Longrightarrow>
     \<exists>r. import_row jl row = Inr r \<and> r ''order_lines'' = Some (Parsed (JArray []))"
  by (auto simp: import_row_def Let_def)

lemma import_row_loaded:
  "row ''OrderLinesJSON'' = Some s \<Longrightarrow> s \<noteq> [] \<Longrightarrow> jl s = Loaded v \<Longrightarrow>
     \<exists>r. import_row jl row = Inr r \<and> r ''order_lines'' = Some (Parsed v)"
  by (simp add: import_row_def Let_def)

lemma import_row_decode_error:
  "row ''OrderLinesJSON'' = Some s \<Longrightarrow> jl s = JSONDecodeError \<Longrightarrow>
     \<exists>r. import_row jl row = Inr r \<and> r ''order_lines'' = Some (Parsed (JArray []))"
  by (simp add: import_row_def Let_def)

lemma import_row_returns:
  "\<forall>s e. row ''OrderLinesJSON'' = Some s \<longrightarrow> jl s \<noteq> Raised e \<Longrightarrow> \<exists>r. import_row jl row = Inr r"
  by (cases "row ''OrderLinesJSON''"; cases "jl (the (row ''OrderLinesJSON''))")
     (auto simp: import_row_def Let_def)

lemma import_rows_return:
  "\<forall>row \<in> set rows. \<forall>s e. row ''OrderLinesJSON'' = Some s \<longrightarrow> jl s \<noteq> Raised e \<Longrightarrow>
     \<exists>rs. import_rows jl rows = Inr rs \<and> length rs = length rows"
proof (induction rows)
  case Nil
  then show ?case by simp
next
  case (Cons row rows)
  then obtain r where r: "import_row jl row = Inr r"
    using import_row_returns [of row jl] by auto
  from Cons obtain rs where "import_rows jl rows = Inr rs" "length rs = length rows" by auto
  with r show ?case by simp
qed

lemma import_export_one:
  assumes "order_lines ord \<noteq> [] \<longrightarrow>
             json_round_trips jd jl (JArray (map order_line_data (order_lines ord)))"
    and "row ''OrderLinesJSON'' =
           (case export_row jd ord ''OrderLinesJSON'' of Some (Text s) \<Rightarrow> Some s | _ \<Rightarrow> None)"
  shows "\<exists>r. import_row jl row = Inr r
           \<and> r ''order_lines'' = Some (Parsed (JArray (map order_line_data (order_lines ord))))"
proof (cases "order_lines ord = []")
  case True
  with assms(2) have "row ''OrderLinesJSON'' = Some []" by (simp add: export_row_cell)
  with import_row_empty [of row jl] True show ?thesis by simp
next
  case False
  let ?v = "JArray (map order_line_data (order_lines ord))"
  from False assms(1) have rt: "jd ?v \<noteq> []" "jl (jd ?v) = Loaded ?v"
    by (simp_all add: json_round_trips_def)
  from False assms(2) have "row ''OrderLinesJSON'' = Some (jd ?v)" by (simp add: export_row_cell)
  with import_row_loaded [of row "jd ?v" jl ?v] rt show ?thesis by simp
qed

lemma import_export_rows:
  "\<forall>ord \<in> set orders. order_lines ord \<noteq> [] \<longrightarrow>
       json_round_trips jd jl (JArray (map order_line_data (order_lines ord))) \<Longrightarrow>
   map (\<lambda>r. r ''OrderLinesJSON'') rows =
     map (\<lambda>r. case r ''OrderLinesJSON'' of Some (Text s) \<Rightarrow> Some s | _ \<Rightarrow> None)
       (map (export_row jd) orders) \<Longrightarrow>
   \<exists>rs. import_rows jl rows = Inr rs
     \<and> map (\<lambda>r. r ''order_lines'') rs =
         map (\<lambda>ord. Some (Parsed (JArray (map order_line_data (order_lines ord))))) orders"
proof (induction orders arbitrary: rows)
  case Nil
  then show ?case by simp
next
  case (Cons ord orders)
  from Cons.prems(2) obtain r rs where rows: "rows = r # rs" by (cases rows) auto
  with Cons.prems(2) have
    hd: "r ''OrderLinesJSON'' =
           (case export_row jd ord ''OrderLinesJSON'' of Some (Text s) \<Rightarrow> Some s | _ \<Rightarrow> None)"
    and tl: "map (\<lambda>r. r ''OrderLinesJSON'') rs =
     map (\<lambda>r. case r ''OrderLinesJSON'' of Some (Text s) \<Rightarrow> Some s | _ \<Rightarrow> None)
       (map (export_row jd) orders)"
    by simp_all
  have "\<exists>r'. import_row jl r = Inr r'
           \<and> r' ''order_lines'' = Some (Parsed (JArray (map order_line_data (order_lines ord))))"
    using Cons.prems(1) hd by (intro import_export_one) simp_all
  then obtain r' where one: "import_row jl r = Inr r'"
    "r' ''order_lines'' = Some (Parsed (JArray (map order_line_data (order_lines ord))))" by blast
  have "\<exists>rs'. import_rows jl rs = Inr rs'
     \<and> map (\<lambda>r. r ''order_lines'') rs' =
         map (\<lambda>ord. Some (Parsed (JArray (map order_line_data (order_lines ord))))) orders"
    using Cons.prems(1) tl by (intro Cons.IH) simp_all
  then obtain rs' where rest: "import_rows jl rs = Inr rs'"
    "map (\<lambda>r. r ''order_lines'') rs' =
         map (\<lambda>ord. Some (Parsed (JArray (map order_line_data (order_lines ord))))) orders" by blast
  from one rest rows show ?case by simp
qed

lemma order_line_data_inj:
  "order_line_data l = order_line_data l' \<longleftrightarrow>
     product_code l = product_code l' \<and> quantity l = quantity l'
     \<and> unit_price l = unit_price l' \<and> line_total l = line_total l'"
  by (auto simp: order_line_data_def)

text \<open>
  C1. Export followed by import gives back the order lines: when the JSON library reads
  back what it wrote for the order lines of each order that has some, and the CSV library
  yields one row per row written with the text of the OrderLinesJSON column unchanged, the
  rows imported from the exported file hold, order by order, the JSON array of the order
  lines, each line an object of product code, quantity, unit price and line total, in the
  same order; an order without lines, written as an empty cell, comes back as the empty
  list. The object of a line determines its four values. A cell on which the JSON library
  raises its decode error, an empty cell and a missing column import as the empty list,
  and an import in which the JSON library raises nothing else returns a row for every row
  read.
\<close>

theorem export_then_import:
  "((\<forall>ord \<in> set orders. order_lines ord \<noteq> [] \<longrightarrow>
        json_round_trips jd jl (JArray (map order_line_data (order_lines ord))))
    \<and> csv_keeps_column dw dr ''OrderLinesJSON'' (map (export_row jd) orders)
    \<longrightarrow> (\<exists>written rows.
          export_orders jd dw Written orders f = (Readable written, Inr ())
          \<and> import_orders jl dr (Readable written) = Inr rows
          \<and> map (\<lambda>r. r ''order_lines'') rows =
              map (\<lambda>ord. Some (Parsed (JArray (map order_line_data (order_lines ord))))) orders))
   \<and> (order_line_data l = order_line_data l' \<longleftrightarrow>
        product_code l = product_code l' \<and> quantity l = quantity l'
        \<and> unit_price l = unit_price l' \<and> line_total l = line_total l')
   \<and> (row ''OrderLinesJSON'' = Some s \<and> jl s = JSONDecodeError \<longrightarrow>
        (\<exists>r. import_row jl row = Inr r \<and> r ''order_lines'' = Some (Parsed (JArray []))))
   \<and> (row ''OrderLinesJSON'' = Some [] \<or> row ''OrderLinesJSON'' = None \<longrightarrow>
        (\<exists>r. import_row jl row = Inr r \<and> r ''order_lines'' = Some (Parsed (JArray []))))
   \<and> (dr content = Inr rows0
        \<and> (\<forall>row \<in> set rows0. \<forall>s e. row ''OrderLinesJSON'' = Some s \<longrightarrow> jl s \<noteq> Raised e)
      \<longrightarrow> (\<exists>rs. import_orders jl dr (Readable content) = Inr rs \<and> length rs = length rows0))"
proof -
  have round: "\<exists>written rows.
          export_orders jd dw Written orders f = (Readable written, Inr ())
          \<and> import_orders jl dr (Readable written) = Inr rows
          \<and> map (\<lambda>r. r ''order_lines'') rows =
              map (\<lambda>ord. Some (Parsed (JArray (map order_line_data (order_lines ord))))) orders"
    if j: "\<forall>ord \<in> set orders. order_lines ord \<noteq> [] \<longrightarrow>
        json_round_trips jd jl (JArray (map order_line_data (order_lines ord)))"
      and c: "csv_keeps_column dw dr ''OrderLinesJSON'' (map (export_row jd) orders)"
  proof -
    let ?text = "dw fieldnames (map (export_row jd) orders)"
    from c obtain rows where rd: "dr ?text = Inr rows"
      and cols: "map (\<lambda>r. r ''OrderLinesJSON'') rows =
        map (\<lambda>r. case r ''OrderLinesJSON'' of Some (Text s) \<Rightarrow> Some s | _ \<Rightarrow> None)
          (map (export_row jd) orders)"
      by (auto simp: csv_keeps_column_def split: sum.splits)
    have e: "export_orders jd dw Written orders f = (Readable ?text, Inr ())"
      by (simp add: export_orders_def write_text_def)
    have i: "import_orders jl dr (Readable ?text) = import_rows jl rows"
      by (simp add: import_orders_def rd)
    from import_export_rows [OF j cols] i e show ?thesis by auto
  qed
  have bad: "row ''OrderLinesJSON'' = Some s \<and> jl s = JSONDecodeError \<longrightarrow>
        (\<exists>r. import_row jl row = Inr r \<and> r ''order_lines'' = Some (Parsed (JArray [])))"
    using import_row_decode_error [of row s jl] by blast
  have blank: "row ''OrderLinesJSON'' = Some [] \<or> row ''OrderLinesJSON'' = None \<longrightarrow>
        (\<exists>r. import_row jl row = Inr r \<and> r ''order_lines'' = Some (Parsed (JArray [])))"
    using import_row_empty [of row jl] by blast
  have total: "dr content = Inr rows0
        \<and> (\<forall>row \<in> set rows0. \<forall>s e. row ''OrderLinesJSON'' = Some s \<longrightarrow> jl s \<noteq> Raised e)
      \<longrightarrow> (\<exists>rs. import_orders jl dr (Readable content) = Inr rs \<and> length rs = length rows0)"
    using import_rows_return [of rows0 jl] by (auto simp: import_orders_def)
  from round order_line_data_inj [of l l'] bad blank total show ?thesis by blast
qed

theorem export_then_import_witness:
  "json_round_trips (\<lambda>v. ''[{}]'')
      (\<lambda>s. if s = ''[{}]''
           then Loaded (JArray [order_line_data \<lparr>product_code = ''CA'', quantity = 2,
                  unit_price = Finite 25000, line_total = Finite 50000\<rparr>])
           else JSONDecodeError)
      (JArray [order_line_data \<lparr>product_code = ''CA'', quantity = 2,
                  unit_price = Finite 25000, line_total = Finite 50000\<rparr>])
   \<and> (\<exists>rows.
        import_orders
          (\<lambda>s. if s = ''[{}]''
               then Loaded (JArray [order_line_data \<lparr>product_code = ''CA'', quantity = 2,
                      unit_price = Finite 25000, line_total = Finite 50000\<rparr>])
               else JSONDecodeError)
          (\<lambda>s. Inr [[''OrderLinesJSON'' \<mapsto> ''[{}]''], [''OrderLinesJSON'' \<mapsto> []]])
          (Readable ''csv'') = Inr rows
        \<and> map (\<lambda>r. r ''order_lines'') rows =
            [Some (Parsed (JArray [order_line_data \<lparr>product_code = ''CA'', quantity = 2,
                      unit_price = Finite 25000, line_total = Finite 50000\<rparr>])),
             Some (Parsed (JArray []))])
   \<and> (\<exists>r. import_row (\<lambda>s. JSONDecodeError) [''OrderLinesJSON'' \<mapsto> ''{oops''] = Inr r
          \<and> r ''order_lines'' = Some (Parsed (JArray [])))
   \<and> (\<exists>r. import_row (\<lambda>s. JSONDecodeError) Map.empty = Inr r
          \<and> r ''order_lines'' = Some (Parsed (JArray [])))
   \<and> (\<exists>rs. import_orders (\<lambda>s. JSONDecodeError) (\<lambda>s. Inr [[''OrderLinesJSON'' \<mapsto> ''{oops'']])
          (Readable ''csv'') = Inr rs \<and> length rs = 1)"
proof -
  let ?line = "\<lparr>product_code = ''CA'', quantity = 2,
                  unit_price = Finite 25000, line_total = Finite 50000\<rparr>"
  let ?o1 = "\<lparr>client_name = ''Rina'', phone = ''0341234567'', address = ''Lot 12'',
      delivery_fee = Some (Finite 3000), products = ''CA x 2'', total_price = Finite 53000,
      status = ''Pending'', agent = ''Jean'', order_notes = [], order_lines = [?line]\<rparr>"
  let ?o2 = "\<lparr>client_name = ''Solo'', phone = ''0331234567'', address = ''Lot 7'',
      delivery_fee = Some (Finite 4000), products = [], total_price = Finite 4000, status = ''Ok'',
      agent = ''Hery'', order_notes = [], order_lines = []\<rparr>"
  let ?jd = "\<lambda>v :: json. ''[{}]''"
  let ?jl = "\<lambda>s. if s = ''[{}]'' then Loaded (JArray [order_line_data ?line]) else JSONDecodeError"
  let ?je = "\<lambda>s :: string. JSONDecodeError"
  let ?dw = "\<lambda>(h :: string list) (rows :: (string \<rightharpoonup> cell) list). ''csv''"
  let ?dr = "\<lambda>s :: string. (Inr [[''OrderLinesJSON'' \<mapsto> ''[{}]''], [''OrderLinesJSON'' \<mapsto> []]]
      :: py_error + (string \<rightharpoonup> string) list)"
  let ?dr1 = "\<lambda>s :: string. (Inr [[''OrderLinesJSON'' \<mapsto> ''{oops'']]
      :: py_error + (string \<rightharpoonup> string) list)"
  have j: "json_round_trips ?jd ?jl (JArray [order_line_data ?line])"
    by (simp add: json_round_trips_def)
  then have js: "\<forall>ord \<in> set [?o1, ?o2]. order_lines ord \<noteq> [] \<longrightarrow>
        json_round_trips ?jd ?jl (JArray (map order_line_data (order_lines ord)))"
    by simp
  have c: "csv_keeps_column ?dw ?dr ''OrderLinesJSON'' (map (export_row ?jd) [?o1, ?o2])"
    by (simp add: csv_keeps_column_def export_row_def Let_def)
  have e: "export_orders ?jd ?dw Written [?o1, ?o2] Missing = (Readable ''csv'', Inr ())"
    by (simp add: export_orders_def write_text_def)
  note t = export_then_import [of "[?o1, ?o2]" ?jd ?jl ?dw ?dr Missing ?line ?line
      "[''OrderLinesJSON'' \<mapsto> ''{oops'']" "''{oops''" "''csv''"
      "[[''OrderLinesJSON'' \<mapsto> ''[{}]''], [''OrderLinesJSON'' \<mapsto> []]]"]
  from t js c obtain written rows where
    "export_orders ?jd ?dw Written [?o1, ?o2] Missing = (Readable written, Inr ())"
    "import_orders ?jl ?dr (Readable written) = Inr rows"
    "map (\<lambda>r. r ''order_lines'') rows =
       map (\<lambda>ord. Some (Parsed (JArray (map order_line_data (order_lines ord))))) [?o1, ?o2]"
    by blast
  with e have r: "\<exists>rows. import_orders ?jl ?dr (Readable ''csv'') = Inr rows
        \<and> map (\<lambda>r. r ''order_lines'') rows =
            [Some (Parsed (JArray [order_line_data ?line])), Some (Parsed (JArray []))]"
    by simp
  note t' = export_then_import [of "[]" ?jd ?je ?dw ?dr1 Missing ?line ?line
      "[''OrderLinesJSON'' \<mapsto> ''{oops'']" "''{oops''" "''csv''" "[[''OrderLinesJSON'' \<mapsto> ''{oops'']]"]
  have m: "\<exists>r. import_row ?je [''OrderLinesJSON'' \<mapsto> ''{oops''] = Inr r
          \<and> r ''order_lines'' = Some (Parsed (JArray []))"
    using t' by simp
  have b: "\<exists>r. import_row ?je Map.empty = Inr r \<and> r ''order_lines'' = Some (Parsed (JArray []))"
    using export_then_import [of "[]" ?jd ?je ?dw ?dr1 Missing ?line ?line
        "Map.empty" "[]" "''csv''" "[]"] by simp
  have "\<forall>row \<in> set [[''OrderLinesJSON'' \<mapsto> ''{oops'']].
      \<forall>s e. row ''OrderLinesJSON'' = Some s \<longrightarrow> ?je s \<noteq> Raised e" by simp
  with t' have n: "\<exists>rs. import_orders ?je ?dr1 (Readable ''csv'') = Inr rs \<and> length rs = 1"
    by simp
  from j r m b n show ?thesis by blast
qed

theorem import_orders_raises_on_deep_json_counterexample:
  "replicate 2000 (CHR ''['') \<noteq> []
   \<and> import_orders
       (\<lambda>s. if s = replicate 2000 (CHR ''['') then Raised RecursionError else JSONDecodeError)
       (\<lambda>s. Inr [[''OrderLinesJSON'' \<mapsto> replicate 2000 (CHR ''['')]])
       (Readable ''OrderLinesJSON'') = Inl RecursionError
   \<and> import_orders (\<lambda>s. JSONDecodeError) (\<lambda>s. Inl CsvError) (Readable ''OrderLinesJSON'')
       = Inl CsvError"
  by (simp add: import_orders_def import_row_def)

subsection \<open>Where the product-field parser returns\<close>

text \<open>
  The quantity that the pattern captures always converts, so an item that starts with an
  alphanumeric character gives an entry; an exception can only come from the fallback for
  the other items. When the parser returns, it returns one entry per non-blank item.
\<close>

lemma is_digit_plain:
  "is_digit c \<Longrightarrow> \<not> isspace c \<and> c \<noteq> CHR ''_'' \<and> c \<noteq> CHR ''+'' \<and> c \<noteq> CHR ''-''"
  by (auto simp: is_digit_def isspace_def)

lemma py_int_digits:
  assumes "ds \<noteq> []" "list_all is_digit ds"
  shows "py_int ds = Some (int (digits_value ds))"
    and "py_int (CHR ''-'' # ds) = Some (- int (digits_value ds))"
proof -
  have plain: "\<forall>c \<in> set ds. \<not> isspace c \<and> c \<noteq> CHR ''_'' \<and> c \<noteq> CHR ''+'' \<and> c \<noteq> CHR ''-''"
    using assms(2) is_digit_plain by (auto simp: list_all_iff)
  have ends: "\<not> isspace (hd ds) \<and> \<not> isspace (last ds)"
    using assms(1) plain by simp
  have t1: "strip ds = ds"
    using assms(1) ends by (intro strip_trimmed) (simp add: trimmed_def)
  have t2: "strip (CHR ''-'' # ds) = CHR ''-'' # ds"
    using assms(1) ends by (intro strip_trimmed) (simp add: trimmed_def isspace_def)
  have sp: "split_on (\<lambda>c. c = CHR ''_'') ds = [ds]"
    using plain by (intro split_on_no_sep) simp
  have rm: "remove_char (CHR ''_'') ds = ds"
    using plain by (simp add: remove_char_def filter_id_conv)
  have dg: "isdigit ds" using assms by (simp add: isdigit_def)
  have h: "hd ds \<noteq> CHR ''-'' \<and> hd ds \<noteq> CHR ''+''" using assms(1) plain by simp
  show "py_int ds = Some (int (digits_value ds))"
    unfolding py_int_def t1 Let_def using assms(1) h sp rm dg by (cases ds) simp_all
  show "py_int (CHR ''-'' # ds) = Some (- int (digits_value ds))"
    by (simp add: py_int_def t2 sp rm dg Let_def)
qed

lemma list_all_takeWhile: "list_all P (takeWhile P xs)"
  by (induction xs) auto

lemma py_int_signed_digits:
  "signed_digits s = Some raw \<Longrightarrow> raw \<noteq> [] \<and> (\<exists>q. py_int raw = Some q)"
proof -
  assume a: "signed_digits s = Some raw"
  then obtain c r where s: "s = c # r" by (cases s) (auto simp: signed_digits_def)
  show ?thesis
  proof (cases "c = CHR ''-''")
    case True
    with a s have "takeWhile is_digit r \<noteq> []" "raw = CHR ''-'' # takeWhile is_digit r"
      by (auto simp: signed_digits_def split: if_splits)
    then show ?thesis
      using py_int_digits(2) [OF _ list_all_takeWhile [of is_digit r]] by simp
  next
    case False
    with a s have "takeWhile is_digit s \<noteq> []" "raw = takeWhile is_digit s"
      by (auto simp: signed_digits_def split: if_splits simp del: takeWhile.simps)
    then show ?thesis
      using py_int_digits(1) [OF _ list_all_takeWhile [of is_digit s]] by simp
  qed
qed

lemma parse_item_regex:
  "PRODUCT_PATTERN item = Some (g, q) \<Longrightarrow> \<exists>n. parse_item item = Inr \<lparr>code = upper g, qty = n\<rparr>"
proof (cases q)
  case None
  assume "PRODUCT_PATTERN item = Some (g, q)"
  with None show ?thesis by (simp add: parse_item_def)
next
  case (Some raw)
  assume p: "PRODUCT_PATTERN item = Some (g, q)"
  then have "signed_digits (case dropWhile isspace (dropWhile is_alnum item) of
        [] \<Rightarrow> dropWhile isspace (dropWhile is_alnum item)
      | c # r \<Rightarrow> if c \<in> set '':xX'' then dropWhile isspace r
                  else dropWhile isspace (dropWhile is_alnum item)) = Some raw"
    using Some by (simp add: PRODUCT_PATTERN_def Let_def split: if_splits)
  from py_int_signed_digits [OF this] obtain n where "raw \<noteq> []" "py_int raw = Some n" by blast
  with p Some show ?thesis by (simp add: parse_item_def)
qed

lemma parse_items_length:
  "parse_items items parsed = Inr entries \<Longrightarrow>
     length entries = length parsed + length (filter (\<lambda>i. strip i \<noteq> []) items)"
  by (induction items arbitrary: parsed) (auto split: if_splits sum.splits)

lemma parse_items_regex:
  "\<forall>i \<in> set items. strip i \<noteq> [] \<longrightarrow> PRODUCT_PATTERN (strip i) \<noteq> None \<Longrightarrow>
     \<exists>entries. parse_items items parsed = Inr entries"
proof (induction items arbitrary: parsed)
  case Nil
  then show ?case by simp
next
  case (Cons i items)
  show ?case
  proof (cases "strip i = []")
    case True
    with Cons show ?thesis by simp
  next
    case False
    with Cons.prems obtain g q where "PRODUCT_PATTERN (strip i) = Some (g, q)" by auto
    from parse_item_regex [OF this] obtain n where
      "parse_item (strip i) = Inr \<lparr>code = upper g, qty = n\<rparr>" by blast
    with False Cons show ?thesis by simp
  qed
qed

lemma strip_eq_Nil_iff: "strip s = [] \<longleftrightarrow> (\<forall>c \<in> set s. isspace c)"
proof
  assume "\<forall>c \<in> set s. isspace c"
  then have d: "dropWhile isspace s = []" by (simp add: dropWhile_eq_Nil_conv)
  show "strip s = []" unfolding strip_def lstrip_def rstrip_def d by simp
next
  assume e: "strip s = []"
  show "\<forall>c \<in> set s. isspace c"
  proof (rule ccontr)
    assume "\<not> (\<forall>c \<in> set s. isspace c)"
    then have ne: "dropWhile isspace s \<noteq> []" by (auto simp: dropWhile_eq_Nil_conv)
    from e have "dropWhile isspace (rev (dropWhile isspace s)) = []"
      by (simp add: strip_def lstrip_def rstrip_def)
    then have "\<forall>c \<in> set (dropWhile isspace s). isspace c"
      by (auto simp: dropWhile_eq_Nil_conv)
    with ne show False
      using hd_dropWhile [of isspace s] hd_in_set [of "dropWhile isspace s"] by blast
  qed
qed

lemma parse_product_field_count:
  "parse_product_field s = Inr entries \<Longrightarrow>
     length entries = length (filter (\<lambda>i. strip i \<noteq> []) (split_on (\<lambda>c. c \<in> set '';,'') s))"
proof (cases "s = [] \<or> strip s = []")
  case False
  assume "parse_product_field s = Inr entries"
  with False show ?thesis
    using parse_items_length [of _ "[]" entries] by (simp add: parse_product_field_def)
next
  case True
  assume r: "parse_product_field s = Inr entries"
  from True have blank: "\<forall>c \<in> set s. isspace c"
    by (auto simp: strip_eq_Nil_iff)
  have "strip i = []" if "i \<in> set (split_on (\<lambda>c. c \<in> set '';,'') s)" for i
    using split_on_pieces [OF that] blank by (auto simp: strip_eq_Nil_iff)
  then have "filter (\<lambda>i. strip i \<noteq> []) (split_on (\<lambda>c. c \<in> set '';,'') s) = []"
    by (auto simp: filter_empty_conv)
  with True r show ?thesis by (auto simp: parse_product_field_def)
qed

lemma parse_product_field_regex:
  "\<forall>i \<in> set (split_on (\<lambda>c. c \<in> set '';,'') s).
       strip i \<noteq> [] \<longrightarrow> PRODUCT_PATTERN (strip i) \<noteq> None \<Longrightarrow>
     \<exists>entries. parse_product_field s = Inr entries"
  using parse_items_regex [of "split_on (\<lambda>c. c \<in> set '';,'') s" "[]"]
  by (simp add: parse_product_field_def)

end
